theory Spec2Isabelle
  imports Main "HOL-Library.Word"
begin

unbundle bit_operations_syntax

section \<open>The battery module: data\<close>

text \<open>
  A shallow embedding of \<^verbatim>\<open>battery-module.c\<close>, the driver of the battery of the Acer
  Switch 11. C's fixed-width integers are words: \<^verbatim>\<open>u8\<close>, \<^verbatim>\<open>u16\<close>, \<^verbatim>\<open>unsigned int\<close> and
  \<^verbatim>\<open>int\<close> (32 bits, the same bits read with \<open>sint\<close>), \<^verbatim>\<open>unsigned long long\<close> and
  \<^verbatim>\<open>long\<close> (64 bits).
\<close>

type_synonym u8 = "8 word"
type_synonym u16 = "16 word"
type_synonym u32 = "32 word"
type_synonym u64 = "64 word"

definition BATTERY_I2C_ADDRESS :: u16 where
  "BATTERY_I2C_ADDRESS = 0x70"

definition BATTERY_REGISTER_STATUS :: u8 where
  "BATTERY_REGISTER_STATUS = 0xC1"

definition BATTERY_REGISTER_RATE :: u8 where
  "BATTERY_REGISTER_RATE = 0xD0"

definition BATTERY_REGISTER_ENERGY :: u8 where
  "BATTERY_REGISTER_ENERGY = 0xC2"

definition BATTERY_REGISTER_VOLTAGE :: u8 where
  "BATTERY_REGISTER_VOLTAGE = 0xC6"

text \<open>
  Constants of the kernel headers the module includes: the read flag of a message
  (\<^verbatim>\<open>linux/i2c.h\<close>), the errno of an invalid argument, and the enumerators the module
  returns, numbered in the order \<^verbatim>\<open>linux/power_supply.h\<close> declares them.
\<close>

definition I2C_M_RD :: u16 where
  "I2C_M_RD = 0x0001"

definition EINVAL :: int where
  "EINVAL = 22"

definition POWER_SUPPLY_STATUS_UNKNOWN :: u32 where
  "POWER_SUPPLY_STATUS_UNKNOWN = 0"

definition POWER_SUPPLY_STATUS_CHARGING :: u32 where
  "POWER_SUPPLY_STATUS_CHARGING = 1"

definition POWER_SUPPLY_STATUS_DISCHARGING :: u32 where
  "POWER_SUPPLY_STATUS_DISCHARGING = 2"

definition POWER_SUPPLY_STATUS_FULL :: u32 where
  "POWER_SUPPLY_STATUS_FULL = 4"

definition POWER_SUPPLY_CAPACITY_LEVEL_CRITICAL :: u32 where
  "POWER_SUPPLY_CAPACITY_LEVEL_CRITICAL = 1"

definition POWER_SUPPLY_CAPACITY_LEVEL_LOW :: u32 where
  "POWER_SUPPLY_CAPACITY_LEVEL_LOW = 2"

definition POWER_SUPPLY_CAPACITY_LEVEL_NORMAL :: u32 where
  "POWER_SUPPLY_CAPACITY_LEVEL_NORMAL = 3"

definition POWER_SUPPLY_CAPACITY_LEVEL_FULL :: u32 where
  "POWER_SUPPLY_CAPACITY_LEVEL_FULL = 5"

definition POWER_SUPPLY_TECHNOLOGY_LION :: u32 where
  "POWER_SUPPLY_TECHNOLOGY_LION = 2"

text \<open>
  \<^verbatim>\<open>enum power_supply_property\<close>: the thirteen enumerators the module names, and one
  constructor for every other enumerator of the kernel's list.
\<close>

datatype power_supply_property =
    POWER_SUPPLY_PROP_STATUS
  | POWER_SUPPLY_PROP_CAPACITY
  | POWER_SUPPLY_PROP_TIME_TO_EMPTY_NOW
  | POWER_SUPPLY_PROP_TIME_TO_FULL_NOW
  | POWER_SUPPLY_PROP_VOLTAGE_NOW
  | POWER_SUPPLY_PROP_CURRENT_NOW
  | POWER_SUPPLY_PROP_PRESENT
  | POWER_SUPPLY_PROP_ENERGY_FULL
  | POWER_SUPPLY_PROP_ENERGY_NOW
  | POWER_SUPPLY_PROP_TECHNOLOGY
  | POWER_SUPPLY_PROP_MODEL_NAME
  | POWER_SUPPLY_PROP_MANUFACTURER
  | POWER_SUPPLY_PROP_CAPACITY_LEVEL
  | POWER_SUPPLY_PROP_OTHER nat

text \<open>\<^verbatim>\<open>union power_supply_propval\<close>: the member last written.\<close>

datatype power_supply_propval = Intval u32 | Strval string

text \<open>\<^verbatim>\<open>struct i2c_msg\<close>. \<open>buf\<close> holds the bytes of the buffer the message points to.\<close>

record i2c_msg =
  addr :: u16
  flags :: u16
  len :: u16
  buf :: "u8 list"

text \<open>
  The bus is the platform's: \<^verbatim>\<open>i2c_transfer\<close> is a parameter of the model, a function
  from the platform's state and the message to the return code, the byte the transfer
  leaves in a one-byte receive buffer (read only after a read message), and the next
  state. Every transfer the module issues is appended to \<open>wire\<close> with its outcome, every
  \<^verbatim>\<open>printk\<close> line to \<open>klog\<close>.
\<close>

type_synonym 's i2c_adapter = "'s \<Rightarrow> i2c_msg \<Rightarrow> (int \<times> u8) \<times> 's"

datatype log_line =
    Write_failed u8 int int int
  | Read_failed u8 int int int
  | Unknown_report

record 's world =
  dev :: 's
  wire :: "(i2c_msg \<times> int \<times> u8) list"
  klog :: "log_line list"

text \<open>A division by zero traps; it is a result of its own.\<close>

datatype fault = Divide_error

definition i2c_transfer :: "'s i2c_adapter \<Rightarrow> i2c_msg \<Rightarrow> 's world \<Rightarrow> (int \<times> u8) \<times> 's world" where
  "i2c_transfer adap msg w =
     (case adap (dev w) msg of
        (rv, d) \<Rightarrow> (rv, w\<lparr>dev := d, wire := wire w @ [(msg, rv)]\<rparr>))"

definition printk :: "log_line \<Rightarrow> 's world \<Rightarrow> 's world" where
  "printk l w = w\<lparr>klog := klog w @ [l]\<rparr>"

text \<open>\<^verbatim>\<open>!x\<close>, and \<^verbatim>\<open>unlikely(x)\<close> of \<^verbatim>\<open>linux/compiler.h\<close>, which is \<^verbatim>\<open>!!(x)\<close> as a \<^verbatim>\<open>long\<close>.\<close>

definition lnot :: "'a::len word \<Rightarrow> u32" where
  "lnot x = (if x = 0 then 1 else 0)"

definition unlikely :: "'a::len word \<Rightarrow> u64" where
  "unlikely x = (if x = 0 then 0 else 1)"

text \<open>Unsigned division as the machine does it.\<close>

definition udiv :: "'a::len word \<Rightarrow> 'a word \<Rightarrow> fault + 'a word" where
  "udiv a b = (if b = 0 then Inl Divide_error else Inr (a div b))"

section \<open>Register transport\<close>

definition max_tries :: int where
  "max_tries = 5"

text \<open>
  The two \<^verbatim>\<open>for\<close> loops of \<^verbatim>\<open>read_byte_register\<close>. \<open>tries\<close> and \<open>ret\<close> (and \<open>val\<close>, the
  variable the read message points to) are the loop's variables; the result is their
  value after the loop.
\<close>

function write_tries :: "'s i2c_adapter \<Rightarrow> u8 \<Rightarrow> i2c_msg \<Rightarrow> int \<Rightarrow> int \<Rightarrow> 's world \<Rightarrow> int \<times> 's world" where
  "write_tries adap reg msg tries ret w =
     (if tries < max_tries then
        (case i2c_transfer adap msg w of
           ((ret', _), w') \<Rightarrow>
             if ret' = 1 then (ret', w')
             else write_tries adap reg msg (tries + 1) ret'
                    (printk (Write_failed reg ret' (tries + 1) max_tries) w'))
      else (ret, w))"
  by pat_completeness auto
termination
  by (relation "measure (\<lambda>(adap, reg, msg, tries, ret, w). nat (max_tries - tries))") auto

function read_tries :: "'s i2c_adapter \<Rightarrow> u8 \<Rightarrow> i2c_msg \<Rightarrow> int \<Rightarrow> int \<times> u8 \<Rightarrow> 's world \<Rightarrow> (int \<times> u8) \<times> 's world" where
  "read_tries adap reg msg tries rv w =
     (if tries < max_tries then
        (case i2c_transfer adap msg w of
           ((ret', val'), w') \<Rightarrow>
             if ret' = 1 then ((ret', val'), w')
             else read_tries adap reg msg (tries + 1) (ret', val')
                    (printk (Read_failed reg ret' (tries + 1) max_tries) w'))
      else (rv, w))"
  by pat_completeness auto
termination
  by (relation "measure (\<lambda>(adap, reg, msg, tries, rv, w). nat (max_tries - tries))") auto

declare write_tries.simps [simp del]
declare read_tries.simps [simp del]

text \<open>
  \<^verbatim>\<open>read_byte_register\<close>. \<^verbatim>\<open>battery_device->addr\<close> is the address of the board info the
  device was created from, \<open>BATTERY_I2C_ADDRESS\<close>. \<^verbatim>\<open>ret\<close> and \<^verbatim>\<open>value\<close> are not
  initialised in the source; each loop assigns them before they are read, since
  \<open>0 < max_tries\<close>, and the model starts them at 0 (\<open>write_tries_start\<close> and
  \<open>read_tries_start\<close> below: the start value never shows). The receive buffer of the
  read message carries nothing to the device.
\<close>

definition read_byte_register :: "'s i2c_adapter \<Rightarrow> u8 \<Rightarrow> 's world \<Rightarrow> u8 \<times> 's world" where
  "read_byte_register adap reg w =
     (let bufo = (replicate 8 0)[0 := 0x02, 1 := 0x80, 2 := reg];
          msg = \<lparr>addr = BATTERY_I2C_ADDRESS, flags = 0, len = 5, buf = bufo\<rparr>;
          (ret, w1) = write_tries adap reg msg 0 0 w
      in if ret \<noteq> 1 then (0x00, w1)
         else
           (let msg' = \<lparr>addr = BATTERY_I2C_ADDRESS, flags = I2C_M_RD, len = 1, buf = []\<rparr>;
                ((ret', val), w2) = read_tries adap reg msg' 0 (0, 0) w1
            in if ret' \<noteq> 1 then (0x00, w2) else (val, w2)))"

text \<open>
  \<^verbatim>\<open>read_word_register\<close>. Both bytes are promoted to \<^verbatim>\<open>int\<close>, the result is cut to
  \<^verbatim>\<open>u16\<close>. C leaves the order of the two calls open; the model takes the left operand,
  the high byte, first.
\<close>

definition read_word_register :: "'s i2c_adapter \<Rightarrow> u8 \<Rightarrow> 's world \<Rightarrow> u16 \<times> 's world" where
  "read_word_register adap reg w =
     (let (hi, w1) = read_byte_register adap (reg + 1) w;
          (lo, w2) = read_byte_register adap reg w1
      in (ucast (push_bit 8 (ucast hi :: u32) OR (ucast lo :: u32)), w2))"

section \<open>Telemetry\<close>

definition battery_energy :: "'s i2c_adapter \<Rightarrow> 's world \<Rightarrow> u32 \<times> 's world" where
  "battery_energy adap w =
     (let (e, w1) = read_word_register adap BATTERY_REGISTER_ENERGY w
      in ((ucast e :: u32) * 10, w1))"

definition battery_energy_full :: u32 where
  "battery_energy_full = 37500"

definition battery_voltage :: "'s i2c_adapter \<Rightarrow> 's world \<Rightarrow> u32 \<times> 's world" where
  "battery_voltage adap w =
     (let (v, w1) = read_word_register adap BATTERY_REGISTER_VOLTAGE w
      in (ucast v, w1))"

definition battery_rate :: "'s i2c_adapter \<Rightarrow> 's world \<Rightarrow> u32 \<times> 's world" where
  "battery_rate adap w =
     (let (r, w1) = read_word_register adap BATTERY_REGISTER_RATE w;
          rate = (ucast r :: u32);
          rate = (if rate > 0x7FFF then 0x10000 - rate else rate);
          (v, w2) = battery_voltage adap w1
      in (rate * v, w2))"

definition battery_status :: "'s i2c_adapter \<Rightarrow> 's world \<Rightarrow> u32 \<times> 's world" where
  "battery_status adap w =
     (let (status, w1) = read_byte_register adap BATTERY_REGISTER_STATUS w
      in if status AND 0x01 \<noteq> 0 then (POWER_SUPPLY_STATUS_DISCHARGING, w1)
         else if status AND 0x02 \<noteq> 0 then (POWER_SUPPLY_STATUS_CHARGING, w1)
         else if status AND 0x03 = 0x00 then (POWER_SUPPLY_STATUS_FULL, w1)
         else (POWER_SUPPLY_STATUS_UNKNOWN, w1))"

definition battery_capacity :: "'s i2c_adapter \<Rightarrow> 's world \<Rightarrow> fault + u32 \<times> 's world" where
  "battery_capacity adap w =
     (let last_full = battery_energy_full
      in if unlikely (lnot last_full) \<noteq> 0 then Inr (0, w)
         else
           (let (e, w1) = battery_energy adap w
            in case udiv (100 * e) battery_energy_full of
                 Inl f \<Rightarrow> Inl f
               | Inr q \<Rightarrow> Inr (q, w1)))"

definition battery_capaity_level :: "'s i2c_adapter \<Rightarrow> 's world \<Rightarrow> fault + u32 \<times> 's world" where
  "battery_capaity_level adap w =
     (case battery_capacity adap w of
        Inl f \<Rightarrow> Inl f
      | Inr (capacity, w1) \<Rightarrow>
          if capacity = 100 then Inr (POWER_SUPPLY_CAPACITY_LEVEL_FULL, w1)
          else if capacity \<le> 5 then Inr (POWER_SUPPLY_CAPACITY_LEVEL_CRITICAL, w1)
          else if capacity \<le> 15 then Inr (POWER_SUPPLY_CAPACITY_LEVEL_LOW, w1)
          else Inr (POWER_SUPPLY_CAPACITY_LEVEL_NORMAL, w1))"

definition battery_time_to_empty :: "'s i2c_adapter \<Rightarrow> 's world \<Rightarrow> fault + u32 \<times> 's world" where
  "battery_time_to_empty adap w =
     (let (rate, w1) = battery_rate adap w
      in if unlikely (lnot rate) \<noteq> 0 then Inr (0, w1)
         else
           (let (e, w2) = battery_energy adap w1
            in case udiv ((ucast e :: u64) * 60 * 60 * 1000) (ucast rate) of
                 Inl f \<Rightarrow> Inl f
               | Inr q \<Rightarrow> Inr (ucast q, w2)))"

text \<open>
  \<^verbatim>\<open>battery_time_to_full\<close>. \<^verbatim>\<open>energy_missing\<close> is an \<^verbatim>\<open>int\<close>: the unsigned difference,
  read as signed, and widened with its sign to \<^verbatim>\<open>unsigned long long\<close> in the product.
  The test is \<^verbatim>\<open>unlikely(energy_missing) < 0\<close>, as the source brackets it.
\<close>

definition battery_time_to_full :: "'s i2c_adapter \<Rightarrow> 's world \<Rightarrow> fault + u32 \<times> 's world" where
  "battery_time_to_full adap w =
     (let (rate, w1) = battery_rate adap w
      in if unlikely (lnot rate) \<noteq> 0 then Inr (0, w1)
         else
           (let (e, w2) = battery_energy adap w1;
                energy_missing = battery_energy_full - e;
                energy_missing =
                  (if sint (unlikely energy_missing) < 0 then 0 else energy_missing)
            in case udiv ((scast energy_missing :: u64) * 60 * 60 * 1000) (ucast rate) of
                 Inl f \<Rightarrow> Inl f
               | Inr q \<Rightarrow> Inr (ucast q, w2)))"

definition battery_current :: "'s i2c_adapter \<Rightarrow> 's world \<Rightarrow> fault + u32 \<times> 's world" where
  "battery_current adap w =
     (let (voltage, w1) = battery_voltage adap w
      in if unlikely (lnot voltage) \<noteq> 0 then Inr (0, w1)
         else
           (let (rate, w2) = battery_rate adap w1
            in case udiv rate voltage of
                 Inl f \<Rightarrow> Inl f
               | Inr q \<Rightarrow> Inr (q, w2)))"

section \<open>Property provider\<close>

text \<open>The array the descriptor advertises.\<close>

definition battery_properties :: "power_supply_property list" where
  "battery_properties =
     [POWER_SUPPLY_PROP_STATUS,
      POWER_SUPPLY_PROP_CAPACITY,
      POWER_SUPPLY_PROP_TIME_TO_EMPTY_NOW,
      POWER_SUPPLY_PROP_TIME_TO_FULL_NOW,
      POWER_SUPPLY_PROP_VOLTAGE_NOW,
      POWER_SUPPLY_PROP_CURRENT_NOW,
      POWER_SUPPLY_PROP_PRESENT,
      POWER_SUPPLY_PROP_ENERGY_FULL,
      POWER_SUPPLY_PROP_ENERGY_NOW,
      POWER_SUPPLY_PROP_TECHNOLOGY,
      POWER_SUPPLY_PROP_MODEL_NAME,
      POWER_SUPPLY_PROP_MANUFACTURER]"

text \<open>
  \<^verbatim>\<open>battery_get_property\<close>: the return code, the union \<^verbatim>\<open>val\<close> points to after the call
  and the world, or the fault of a derivation. The \<^verbatim>\<open>supply\<close> argument is not used.
  \<open>set_intval\<close> is \<^verbatim>\<open>val->intval = x; break;\<close> followed by \<^verbatim>\<open>return 0\<close>; the equations
  are the \<^verbatim>\<open>case\<close> labels in the order of the source, the last one the \<^verbatim>\<open>default\<close> label.
\<close>

definition set_intval :: "fault + u32 \<times> 's world \<Rightarrow> fault + int \<times> power_supply_propval \<times> 's world" where
  "set_intval r = (case r of Inl f \<Rightarrow> Inl f | Inr (x, w) \<Rightarrow> Inr (0, Intval x, w))"

fun battery_get_property ::
  "'s i2c_adapter \<Rightarrow> power_supply_property \<Rightarrow> power_supply_propval \<Rightarrow> 's world \<Rightarrow>
     fault + int \<times> power_supply_propval \<times> 's world" where
  "battery_get_property adap POWER_SUPPLY_PROP_CAPACITY val w =
     set_intval (battery_capacity adap w)"
| "battery_get_property adap POWER_SUPPLY_PROP_STATUS val w =
     set_intval (Inr (battery_status adap w))"
| "battery_get_property adap POWER_SUPPLY_PROP_TIME_TO_EMPTY_NOW val w =
     set_intval (battery_time_to_empty adap w)"
| "battery_get_property adap POWER_SUPPLY_PROP_TIME_TO_FULL_NOW val w =
     set_intval (battery_time_to_full adap w)"
| "battery_get_property adap POWER_SUPPLY_PROP_VOLTAGE_NOW val w =
     set_intval (Inr (battery_voltage adap w))"
| "battery_get_property adap POWER_SUPPLY_PROP_CURRENT_NOW val w =
     set_intval (battery_current adap w)"
| "battery_get_property adap POWER_SUPPLY_PROP_ENERGY_FULL val w =
     set_intval (Inr (battery_energy_full * 1000, w))"
| "battery_get_property adap POWER_SUPPLY_PROP_ENERGY_NOW val w =
     (let (e, w1) = battery_energy adap w in set_intval (Inr (e * 1000, w1)))"
| "battery_get_property adap POWER_SUPPLY_PROP_CAPACITY_LEVEL val w =
     set_intval (battery_capaity_level adap w)"
| "battery_get_property adap POWER_SUPPLY_PROP_PRESENT val w =
     Inr (0, Intval 1, w)"
| "battery_get_property adap POWER_SUPPLY_PROP_TECHNOLOGY val w =
     Inr (0, Intval POWER_SUPPLY_TECHNOLOGY_LION, w)"
| "battery_get_property adap POWER_SUPPLY_PROP_MANUFACTURER val w =
     Inr (0, Strval ''Acer'', w)"
| "battery_get_property adap POWER_SUPPLY_PROP_MODEL_NAME val w =
     Inr (0, Strval ''Acer Switch 11 Battery by jfrimmel'', w)"
| "battery_get_property adap (POWER_SUPPLY_PROP_OTHER n) val w =
     Inr (- EINVAL, val, printk Unknown_report w)"

section \<open>Platforms for the scenarios\<close>

text \<open>
  Three platforms to run the module on. \<open>register_device\<close> is a controller with a
  register file that answers every transfer: a write message selects the register its
  third byte names, a read message returns the selected register. \<open>dead_bus\<close> fails every
  transfer and leaves a stray byte in the receive buffer. \<open>scripted_bus\<close> answers the
  transfers with the outcomes of a script, one after the other, and fails once the script
  is used up.
\<close>

definition boot :: "'s \<Rightarrow> 's world" where
  "boot d = \<lparr>dev = d, wire = [], klog = []\<rparr>"

definition register_device :: "(u8 \<Rightarrow> u8) \<Rightarrow> u8 i2c_adapter" where
  "register_device regs sel msg =
     (if flags msg AND I2C_M_RD \<noteq> 0 then ((1, regs sel), sel)
      else ((1, 0), (case drop 2 (buf msg) of [] \<Rightarrow> sel | r # _ \<Rightarrow> r)))"

definition dead_bus :: "unit i2c_adapter" where
  "dead_bus d msg = ((- 5, 0xFF), d)"

fun scripted_bus :: "(int \<times> u8) list i2c_adapter" where
  "scripted_bus [] msg = ((- 5, 0xFF), [])"
| "scripted_bus (rv # script) msg = (rv, script)"

text \<open>What a derivation answers, without the world it leaves.\<close>

definition answer :: "fault + 'a \<times> 'w \<Rightarrow> fault + 'a" where
  "answer r = (case r of Inl f \<Rightarrow> Inl f | Inr (x, w) \<Rightarrow> Inr x)"

text \<open>What \<^verbatim>\<open>battery_get_property\<close> hands back: the return code and the union.\<close>

definition reply :: "fault + int \<times> power_supply_propval \<times> 'w \<Rightarrow> fault + int \<times> power_supply_propval" where
  "reply r = (case r of Inl f \<Rightarrow> Inl f | Inr (ret, val, w) \<Rightarrow> Inr (ret, val))"

text \<open>The bytes a message puts on or takes off the bus: the first \<open>len\<close> of its buffer.\<close>

definition payload :: "i2c_msg \<Rightarrow> u8 list" where
  "payload m = take (unat (len m)) (buf m)"

section \<open>Facts about the transport\<close>

lemma bufo_eq:
  "(replicate 8 (0 :: u8))[0 := 0x02, 1 := 0x80, 2 := reg] = [0x02, 0x80, reg, 0, 0, 0, 0, 0]"
  by (simp add: numeral_eq_Suc)

text \<open>Each loop runs its body at least once, so what \<open>ret\<close> and \<open>val\<close> start with is lost.\<close>

lemma write_tries_start:
  "write_tries adap reg msg 0 r w = write_tries adap reg msg 0 r' w"
  by (simp add: write_tries.simps [of _ _ _ 0] max_tries_def)

lemma read_tries_start:
  "read_tries adap reg msg 0 r w = read_tries adap reg msg 0 r' w"
  by (simp add: read_tries.simps [of _ _ _ 0] max_tries_def)

lemma wire_i2c_transfer:
  "i2c_transfer adap msg w = (rv, w') \<Longrightarrow> wire w' = wire w @ [(msg, rv)]"
  by (auto simp: i2c_transfer_def split: prod.splits)

lemma wire_printk [simp]: "wire (printk l w) = wire w"
  by (simp add: printk_def)

lemma write_tries_wire:
  "write_tries adap reg msg tries ret w = (ret', w') \<Longrightarrow>
   \<exists>evs. wire w' = wire w @ map (Pair msg) evs
       \<and> int (length evs) \<le> max 0 (max_tries - tries)
       \<and> list_all (\<lambda>e. fst e \<noteq> 1) (butlast evs)
       \<and> ret' = (if evs = [] then ret else fst (last evs))
       \<and> (ret' \<noteq> 1 \<and> tries \<le> max_tries \<longrightarrow> int (length evs) = max_tries - tries)"
proof (induction adap reg msg tries ret w rule: write_tries.induct)
  case (1 adap reg msg tries ret w)
  show ?case
  proof (cases "tries < max_tries")
    case False
    with "1.prems" have "ret' = ret" "w' = w"
      by (simp_all add: write_tries.simps [of _ _ _ tries])
    with False show ?thesis
      by (intro exI [of _ "[]"]) simp
  next
    case True
    obtain r x w1 where t: "i2c_transfer adap msg w = ((r, x), w1)"
      by (metis prod.exhaust)
    show ?thesis
    proof (cases "r = 1")
      case True
      with \<open>tries < max_tries\<close> t "1.prems" have "ret' = 1" "w' = w1"
        by (simp_all add: write_tries.simps [of _ _ _ tries])
      with t \<open>tries < max_tries\<close> show ?thesis
        by (intro exI [of _ "[(r, x)]"]) (simp add: wire_i2c_transfer True)
    next
      case False
      let ?w = "printk (Write_failed reg r (tries + 1) max_tries) w1"
      from \<open>tries < max_tries\<close> t False "1.prems"
      have run: "write_tries adap reg msg (tries + 1) r ?w = (ret', w')"
        by (simp add: write_tries.simps [of _ _ _ tries])
      from "1.IH" [OF \<open>tries < max_tries\<close> t [symmetric] _ False run]
      obtain evs where evs: "wire w' = wire ?w @ map (Pair msg) evs"
        "int (length evs) \<le> max 0 (max_tries - (tries + 1))"
        "list_all (\<lambda>e. fst e \<noteq> 1) (butlast evs)"
        "ret' = (if evs = [] then r else fst (last evs))"
        "ret' \<noteq> 1 \<and> tries + 1 \<le> max_tries \<longrightarrow> int (length evs) = max_tries - (tries + 1)"
        by auto
      show ?thesis
        using evs \<open>tries < max_tries\<close> False wire_i2c_transfer [OF t]
        by (intro exI [of _ "(r, x) # evs"]) auto
    qed
  qed
qed

lemma read_tries_wire:
  "read_tries adap reg msg tries rv w = (rv', w') \<Longrightarrow>
   \<exists>evs. wire w' = wire w @ map (Pair msg) evs
       \<and> int (length evs) \<le> max 0 (max_tries - tries)
       \<and> list_all (\<lambda>e. fst e \<noteq> 1) (butlast evs)
       \<and> rv' = (if evs = [] then rv else last evs)
       \<and> (fst rv' \<noteq> 1 \<and> tries \<le> max_tries \<longrightarrow> int (length evs) = max_tries - tries)"
proof (induction adap reg msg tries rv w rule: read_tries.induct)
  case (1 adap reg msg tries rv w)
  show ?case
  proof (cases "tries < max_tries")
    case False
    with "1.prems" have "rv' = rv" "w' = w"
      by (simp_all add: read_tries.simps [of _ _ _ tries])
    with False show ?thesis
      by (intro exI [of _ "[]"]) simp
  next
    case True
    obtain r x w1 where t: "i2c_transfer adap msg w = ((r, x), w1)"
      by (metis prod.exhaust)
    show ?thesis
    proof (cases "r = 1")
      case True
      with \<open>tries < max_tries\<close> t "1.prems" have "rv' = (1, x)" "w' = w1"
        by (auto simp add: read_tries.simps [of _ _ _ tries])
      with t \<open>tries < max_tries\<close> show ?thesis
        by (intro exI [of _ "[(r, x)]"]) (simp add: wire_i2c_transfer True)
    next
      case False
      let ?w = "printk (Read_failed reg r (tries + 1) max_tries) w1"
      from \<open>tries < max_tries\<close> t False "1.prems"
      have run: "read_tries adap reg msg (tries + 1) (r, x) ?w = (rv', w')"
        by (simp add: read_tries.simps [of _ _ _ tries])
      from "1.IH" [OF \<open>tries < max_tries\<close> t [symmetric] refl False run]
      obtain evs where evs: "wire w' = wire ?w @ map (Pair msg) evs"
        "int (length evs) \<le> max 0 (max_tries - (tries + 1))"
        "list_all (\<lambda>e. fst e \<noteq> 1) (butlast evs)"
        "rv' = (if evs = [] then (r, x) else last evs)"
        "fst rv' \<noteq> 1 \<and> tries + 1 \<le> max_tries \<longrightarrow> int (length evs) = max_tries - (tries + 1)"
        by auto
      show ?thesis
        using evs \<open>tries < max_tries\<close> False wire_i2c_transfer [OF t]
        by (intro exI [of _ "(r, x) # evs"]) auto
    qed
  qed
qed

lemma read_byte_register_wire:
  assumes "read_byte_register adap reg w = (v, w')"
  shows "\<exists>ws rs.
      wire w' = wire w
        @ map (Pair \<lparr>addr = BATTERY_I2C_ADDRESS, flags = 0, len = 5,
                      buf = [0x02, 0x80, reg, 0, 0, 0, 0, 0]\<rparr>) ws
        @ map (Pair \<lparr>addr = BATTERY_I2C_ADDRESS, flags = I2C_M_RD, len = 1, buf = []\<rparr>) rs
    \<and> ws \<noteq> [] \<and> length ws \<le> 5 \<and> length rs \<le> 5
    \<and> list_all (\<lambda>e. fst e \<noteq> 1) (butlast ws)
    \<and> list_all (\<lambda>e. fst e \<noteq> 1) (butlast rs)
    \<and> (if fst (last ws) \<noteq> 1 then length ws = 5 \<and> rs = [] \<and> v = 0
        else rs \<noteq> [] \<and>
          (if fst (last rs) \<noteq> 1 then length rs = 5 \<and> v = 0 else v = snd (last rs)))"
proof -
  let ?wm = "\<lparr>addr = BATTERY_I2C_ADDRESS, flags = 0, len = 5,
               buf = [0x02, 0x80, reg, 0, 0, 0, 0, 0]\<rparr>"
  let ?rm = "\<lparr>addr = BATTERY_I2C_ADDRESS, flags = I2C_M_RD, len = 1, buf = []\<rparr>"
  obtain ret w1 where wr: "write_tries adap reg ?wm 0 0 w = (ret, w1)"
    by (metis prod.exhaust)
  from write_tries_wire [OF wr]
  obtain ws where ws: "wire w1 = wire w @ map (Pair ?wm) ws"
    "length ws \<le> 5" "list_all (\<lambda>e. fst e \<noteq> 1) (butlast ws)"
    "ret = (if ws = [] then 0 else fst (last ws))"
    "ret \<noteq> 1 \<longrightarrow> length ws = 5"
    by (auto simp: max_tries_def)
  from ws(4,5) have ne: "ws \<noteq> []" by (cases "ws = []") auto
  with ws(4) have ret: "ret = fst (last ws)" by simp
  show ?thesis
  proof (cases "ret = 1")
    case False
    with assms wr have "v = 0" "w' = w1"
      unfolding read_byte_register_def bufo_eq by (simp_all add: Let_def)
    with ws ne ret False show ?thesis
      by (intro exI [of _ ws] exI [of _ "[]"]) simp
  next
    case True
    obtain ret' val w2 where rd: "read_tries adap reg ?rm 0 (0, 0) w1 = ((ret', val), w2)"
      by (metis prod.exhaust)
    from read_tries_wire [OF rd]
    obtain rs where rs: "wire w2 = wire w1 @ map (Pair ?rm) rs"
      "length rs \<le> 5" "list_all (\<lambda>e. fst e \<noteq> 1) (butlast rs)"
      "(ret', val) = (if rs = [] then (0, 0) else last rs)"
      "ret' \<noteq> 1 \<longrightarrow> length rs = 5"
      by (auto simp: max_tries_def)
    from rs(4,5) have ner: "rs \<noteq> []" by (cases "rs = []") auto
    with rs(4) have last: "last rs = (ret', val)" by simp
    from assms wr rd True have res: "v = (if ret' \<noteq> 1 then 0 else val)" "w' = w2"
      unfolding read_byte_register_def bufo_eq by (auto simp: Let_def split: if_splits)
    show ?thesis
      using ws ne ret True rs(1,2,3,5) ner last res
      by (intro exI [of _ ws] exI [of _ rs]) simp
  qed
qed

lemma dev_printk [simp]: "dev (printk l w) = dev w"
  by (simp add: printk_def)

text \<open>A bus on which no transfer succeeds.\<close>

lemma i2c_transfer_fails:
  "\<forall>d m. fst (fst (adap d m)) \<noteq> 1 \<Longrightarrow> fst (fst (i2c_transfer adap msg w)) \<noteq> 1"
  by (simp add: i2c_transfer_def split: prod.splits) (metis fst_conv)

lemma write_tries_fails:
  "\<forall>d m. fst (fst (adap d m)) \<noteq> 1 \<Longrightarrow> ret \<noteq> 1 \<Longrightarrow>
   fst (write_tries adap reg msg tries ret w) \<noteq> 1"
proof (induction adap reg msg tries ret w rule: write_tries.induct)
  case (1 adap reg msg tries ret w)
  show ?case
  proof (cases "tries < max_tries")
    case False
    with "1.prems" show ?thesis by (simp add: write_tries.simps [of _ _ _ tries])
  next
    case True
    obtain r x w1 where t: "i2c_transfer adap msg w = ((r, x), w1)"
      by (metis prod.exhaust)
    with i2c_transfer_fails [OF "1.prems"(1), of msg w] have r: "r \<noteq> 1" by simp
    from "1.IH" [OF True t [symmetric] _ r "1.prems"(1) r] True t r
    show ?thesis by (simp add: write_tries.simps [of _ _ _ tries])
  qed
qed

lemma read_byte_register_fails:
  assumes "\<forall>d m. fst (fst (adap d m)) \<noteq> 1"
  shows "fst (read_byte_register adap reg w) = 0"
  using write_tries_fails [OF assms, of 0 reg _ 0 w]
  by (simp add: read_byte_register_def Let_def split: prod.splits) (metis fst_conv)

lemma read_word_register_fails:
  assumes "\<forall>d m. fst (fst (adap d m)) \<noteq> 1"
  shows "fst (read_word_register adap reg w) = 0"
  by (simp add: read_word_register_def split_def Let_def read_byte_register_fails [OF assms])

text \<open>The register device answers every read with the register's byte.\<close>

lemma read_byte_register_register_device:
  "fst (read_byte_register (register_device regs) reg w) = regs reg"
  unfolding read_byte_register_def bufo_eq
  by (simp add: write_tries.simps [of _ _ _ 0]
      read_tries.simps [of _ _ _ 0] max_tries_def i2c_transfer_def register_device_def
      I2C_M_RD_def)

lemma read_word_register_register_device:
  "fst (read_word_register (register_device regs) reg w) =
     ucast (push_bit 8 (ucast (regs (reg + 1)) :: u32) OR ucast (regs reg))"
  by (simp add: read_word_register_def split_def Let_def read_byte_register_register_device)


section \<open>Facts about the arithmetic\<close>

lemma unat_read_word:
  "unat (ucast (push_bit 8 (ucast (hi :: u8) :: u32) OR ucast (lo :: u8)) :: u16) = unat lo + 256 * unat hi"
proof -
  have hi: "unat hi < 256" and lo: "unat lo < 256"
    using unsigned_less [of hi] unsigned_less [of lo] by simp_all
  have cut: "(ucast (push_bit 8 (ucast hi :: u32) OR ucast lo) :: u16) = push_bit 8 (ucast hi) OR ucast lo"
    by (rule bit_word_eqI) (auto simp: bit_simps)
  have small: "take_bit 16 (unat hi) = unat hi" "take_bit 16 (unat lo) = unat lo"
    using hi lo by (simp_all add: take_bit_nat_eq_self)
  have "unat (ucast (push_bit 8 (ucast hi :: u32) OR ucast lo) :: u16) =
      take_bit 16 (push_bit 8 (unat hi)) OR unat lo"
    unfolding cut by (simp add: unsigned_or_eq unsigned_push_bit_eq unsigned_ucast_eq small)
  also have "take_bit 16 (push_bit 8 (unat hi)) = push_bit 8 (unat hi)"
    using hi by (intro take_bit_nat_eq_self) (simp add: push_bit_eq_mult)
  also have "push_bit 8 (unat hi) OR unat lo = push_bit 8 (unat hi) + unat lo"
  proof (rule disjunctive_add [symmetric])
    fix n
    show "\<not> bit (push_bit 8 (unat hi)) n \<or> \<not> bit (unat lo) n"
    proof (cases "n < 8")
      case True
      then show ?thesis by (simp add: bit_push_bit_iff)
    next
      case False
      then have "(2::nat) ^ 8 \<le> 2 ^ n" by (intro power_increasing) simp_all
      with lo have "unat lo < 2 ^ n" by simp
      then have "\<not> bit (unat lo) n" by (simp add: bit_iff_odd)
      then show ?thesis by simp
    qed
  qed
  finally show ?thesis by (simp add: push_bit_eq_mult)
qed

lemma unat_u16_less: "unat (x :: u16) < 65536"
  using unsigned_less [of x] by simp

lemma unat_ucast_u16_u32: "unat (ucast (x :: u16) :: u32) = unat x"
  using unat_u16_less [of x] by (simp add: unsigned_ucast_eq take_bit_nat_eq_self)

lemma unat_energy: "unat ((ucast (e :: u16) :: u32) * 10) = unat e * 10"
proof -
  have "unat (ucast e :: u32) * unat (10 :: u32) < 2 ^ LENGTH(32)"
    using unat_u16_less [of e] by (simp add: unat_ucast_u16_u32)
  then have "unat ((ucast e :: u32) * 10) = unat (ucast e :: u32) * unat (10 :: u32)"
    by (simp only: unat_mult_lem)
  then show ?thesis by (simp add: unat_ucast_u16_u32)
qed

lemma unat_magnitude:
  fixes r :: u16
  defines "rate \<equiv> (ucast r :: u32)"
  shows "unat (if rate > 0x7FFF then 0x10000 - rate else rate) =
         (if unat r > 0x7FFF then 0x10000 - unat r else unat r)"
proof -
  have r: "unat rate = unat r" by (simp add: rate_def unat_ucast_u16_u32)
  have gt: "rate > 0x7FFF \<longleftrightarrow> unat r > 0x7FFF"
    by (simp add: word_less_nat_alt r)
  have "rate \<le> 0x10000"
    using unat_u16_less [of r] by (simp add: word_le_nat_alt r)
  then have "unat (0x10000 - rate) = 0x10000 - unat r"
    by (simp add: unat_sub r)
  with gt r show ?thesis by simp
qed

lemma unat_mult_small:
  fixes m v :: u32
  assumes "unat m \<le> 0x8000" "unat v < 65536"
  shows "unat (m * v) = unat m * unat v"
proof -
  have "unat m * unat v \<le> 0x8000 * 65536"
    using assms by (intro mult_mono) simp_all
  then have "unat m * unat v < 2 ^ LENGTH(32)" by simp
  then show ?thesis by (simp only: unat_mult_lem)
qed

lemma unat_capacity:
  fixes e :: u32
  assumes "unat e \<le> 655350"
  shows "unat (100 * e div 37500) = 100 * unat e div 37500"
proof -
  have "unat (100 :: u32) * unat e < 2 ^ LENGTH(32)" using assms by simp
  then have "unat (100 * e) = unat (100 :: u32) * unat e" by (simp only: unat_mult_lem)
  then show ?thesis by (simp add: unat_div)
qed

lemma unlikely_never_negative: "\<not> sint (unlikely x) < 0"
  by (simp add: unlikely_def)

lemma and_3:
  fixes status :: u8
  shows "status AND 0x01 = 0 \<Longrightarrow> status AND 0x02 = 0 \<Longrightarrow> status AND 0x03 = 0"
proof -
  assume a: "status AND 0x01 = 0" "status AND 0x02 = 0"
  have "(0x03 :: u8) = 0x01 OR 0x02" by simp
  then have "status AND 0x03 = (status AND 0x01) OR (status AND 0x02)"
    by (simp only: bit.conj_disj_distrib)
  with a show ?thesis by simp
qed

lemma and_1_bit: "(status :: u8) AND 0x01 \<noteq> 0 \<longleftrightarrow> bit status 0"
  by (simp add: and_one_eq bit_0 mod_2_eq_odd)

lemma and_2_bit: "(status :: u8) AND 0x02 \<noteq> 0 \<longleftrightarrow> bit status 1"
  using and_exp_eq_0_iff_not_bit [of status 1] by simp

section \<open>Facts about the status byte\<close>

lemma status_enumerators_distinct:
  "POWER_SUPPLY_STATUS_DISCHARGING \<noteq> POWER_SUPPLY_STATUS_UNKNOWN"
  "POWER_SUPPLY_STATUS_CHARGING \<noteq> POWER_SUPPLY_STATUS_UNKNOWN"
  "POWER_SUPPLY_STATUS_FULL \<noteq> POWER_SUPPLY_STATUS_UNKNOWN"
  by (simp_all add: POWER_SUPPLY_STATUS_DISCHARGING_def POWER_SUPPLY_STATUS_CHARGING_def
      POWER_SUPPLY_STATUS_FULL_def POWER_SUPPLY_STATUS_UNKNOWN_def)

lemma battery_status_decode:
  "fst (battery_status adap w) =
     (let status = fst (read_byte_register adap BATTERY_REGISTER_STATUS w)
      in if bit status 0 then POWER_SUPPLY_STATUS_DISCHARGING
         else if bit status 1 then POWER_SUPPLY_STATUS_CHARGING
         else POWER_SUPPLY_STATUS_FULL)"
proof -
  obtain status w1 where rd: "read_byte_register adap BATTERY_REGISTER_STATUS w = (status, w1)"
    by (metis prod.exhaust)
  show ?thesis
  proof (cases "status AND 0x01 \<noteq> 0")
    case True
    with rd show ?thesis
      using and_1_bit [of status] by (simp add: battery_status_def)
  next
    case b0: False
    show ?thesis
    proof (cases "status AND 0x02 \<noteq> 0")
      case True
      with rd b0 show ?thesis
        using and_1_bit [of status] and_2_bit [of status] by (simp add: battery_status_def)
    next
      case False
      with b0 have "status AND 0x03 = 0" by (simp add: and_3)
      with rd b0 False show ?thesis
        using and_1_bit [of status] and_2_bit [of status] by (simp add: battery_status_def)
    qed
  qed
qed

section \<open>Runs on the scenario platforms\<close>

lemmas run_transport =
  write_tries.simps read_tries.simps max_tries_def i2c_transfer_def printk_def boot_def

lemma run_dead:
  "read_byte_register dead_bus 0xC1 (boot ()) =
     (0x00,
      \<lparr>dev = (),
       wire = replicate 5 (\<lparr>addr = BATTERY_I2C_ADDRESS, flags = 0, len = 5,
                  buf = [0x02, 0x80, 0xC1, 0, 0, 0, 0, 0]\<rparr>, - 5, 0xFF),
       klog = [Write_failed 0xC1 (- 5) 1 5, Write_failed 0xC1 (- 5) 2 5,
               Write_failed 0xC1 (- 5) 3 5, Write_failed 0xC1 (- 5) 4 5,
               Write_failed 0xC1 (- 5) 5 5]\<rparr>)"
  unfolding read_byte_register_def bufo_eq
  by (simp add: run_transport dead_bus_def numeral_eq_Suc Let_def)

lemma run_scripted:
  "read_byte_register scripted_bus 0xC1
      (boot [(- 5, 0x00), (- 6, 0x01), (1, 0x02), (- 5, 0x03), (1, 0x5A), (1, 0x77)]) =
     (0x5A,
      \<lparr>dev = [(1, 0x77)],
       wire =
         [(\<lparr>addr = BATTERY_I2C_ADDRESS, flags = 0, len = 5,
             buf = [0x02, 0x80, 0xC1, 0, 0, 0, 0, 0]\<rparr>, - 5, 0x00),
          (\<lparr>addr = BATTERY_I2C_ADDRESS, flags = 0, len = 5,
             buf = [0x02, 0x80, 0xC1, 0, 0, 0, 0, 0]\<rparr>, - 6, 0x01),
          (\<lparr>addr = BATTERY_I2C_ADDRESS, flags = 0, len = 5,
             buf = [0x02, 0x80, 0xC1, 0, 0, 0, 0, 0]\<rparr>, 1, 0x02),
          (\<lparr>addr = BATTERY_I2C_ADDRESS, flags = I2C_M_RD, len = 1, buf = []\<rparr>, - 5, 0x03),
          (\<lparr>addr = BATTERY_I2C_ADDRESS, flags = I2C_M_RD, len = 1, buf = []\<rparr>, 1, 0x5A)],
       klog = [Write_failed 0xC1 (- 5) 1 5, Write_failed 0xC1 (- 6) 2 5,
               Read_failed 0xC1 (- 5) 1 5]\<rparr>)"
  unfolding read_byte_register_def bufo_eq
  by (simp add: run_transport Let_def)

lemma run_register_device:
  "read_byte_register (register_device (\<lambda>_. 0x2A)) 0xD0 (boot 0) =
     (0x2A,
      \<lparr>dev = 0xD0,
       wire =
         [(\<lparr>addr = BATTERY_I2C_ADDRESS, flags = 0, len = 5,
             buf = [0x02, 0x80, 0xD0, 0, 0, 0, 0, 0]\<rparr>, 1, 0x00),
          (\<lparr>addr = BATTERY_I2C_ADDRESS, flags = I2C_M_RD, len = 1, buf = []\<rparr>, 1, 0x2A)],
       klog = []\<rparr>)"
  unfolding read_byte_register_def bufo_eq
  by (simp add: run_transport register_device_def I2C_M_RD_def Let_def)

section \<open>Facts about the derivations\<close>

text \<open>
  What each derivation answers, in terms of the reads it makes. None of them faults: every
  division is behind a test of its divisor, or divides by the constant 37500.
\<close>

lemma ucast_u32_u64_eq_0: "(ucast (x :: u32) :: u64) = 0 \<longleftrightarrow> x = 0"
proof
  assume "(ucast x :: u64) = 0"
  then have "unat (ucast x :: u64) = 0" by simp
  moreover have "unat (ucast x :: u64) = unat x"
    using unsigned_less [of x, where 'a = nat]
    by (simp add: unsigned_ucast_eq take_bit_nat_eq_self)
  ultimately show "x = 0" by (simp add: unat_eq_0)
qed simp

lemma fst_battery_energy:
  "fst (battery_energy adap w) =
     ucast (fst (read_word_register adap BATTERY_REGISTER_ENERGY w)) * 10"
  by (simp add: battery_energy_def split_def Let_def)

lemma fst_battery_voltage:
  "fst (battery_voltage adap w) = ucast (fst (read_word_register adap BATTERY_REGISTER_VOLTAGE w))"
  by (simp add: battery_voltage_def split_def Let_def)

lemma fst_battery_rate:
  "fst (battery_rate adap w) =
     (let rate = (ucast (fst (read_word_register adap BATTERY_REGISTER_RATE w)) :: u32)
      in (if rate > 0x7FFF then 0x10000 - rate else rate)
           * fst (battery_voltage adap (snd (read_word_register adap BATTERY_REGISTER_RATE w))))"
  by (simp add: battery_rate_def split_def Let_def)

lemma answer_battery_capacity:
  "answer (battery_capacity adap w) = Inr (100 * fst (battery_energy adap w) div 37500)"
  by (simp add: battery_capacity_def answer_def battery_energy_full_def lnot_def unlikely_def
      udiv_def split_def Let_def)

lemma answer_battery_capaity_level:
  "answer (battery_capaity_level adap w) =
     (let capacity = 100 * fst (battery_energy adap w) div 37500
      in if capacity = 100 then Inr POWER_SUPPLY_CAPACITY_LEVEL_FULL
         else if capacity \<le> 5 then Inr POWER_SUPPLY_CAPACITY_LEVEL_CRITICAL
         else if capacity \<le> 15 then Inr POWER_SUPPLY_CAPACITY_LEVEL_LOW
         else Inr POWER_SUPPLY_CAPACITY_LEVEL_NORMAL)"
  by (simp add: battery_capaity_level_def battery_capacity_def answer_def battery_energy_full_def
      lnot_def unlikely_def udiv_def split_def Let_def)

lemma answer_battery_time_to_empty:
  "answer (battery_time_to_empty adap w) =
     (let rate = fst (battery_rate adap w);
          e = fst (battery_energy adap (snd (battery_rate adap w)))
      in if rate = 0 then Inr 0
         else Inr (ucast ((ucast e :: u64) * 60 * 60 * 1000 div ucast rate)))"
  by (simp add: battery_time_to_empty_def answer_def lnot_def unlikely_def udiv_def split_def
      Let_def ucast_u32_u64_eq_0)

lemma answer_battery_time_to_full:
  "answer (battery_time_to_full adap w) =
     (let rate = fst (battery_rate adap w);
          e = fst (battery_energy adap (snd (battery_rate adap w)))
      in if rate = 0 then Inr 0
         else Inr (ucast ((scast (battery_energy_full - e) :: u64) * 60 * 60 * 1000 div ucast rate)))"
  by (simp add: battery_time_to_full_def answer_def lnot_def udiv_def split_def
      Let_def ucast_u32_u64_eq_0 unlikely_never_negative) (simp add: unlikely_def)

lemma answer_battery_current:
  "answer (battery_current adap w) =
     (let voltage = fst (battery_voltage adap w)
      in if voltage = 0 then Inr 0
         else Inr (fst (battery_rate adap (snd (battery_voltage adap w))) div voltage))"
  by (simp add: battery_current_def answer_def lnot_def unlikely_def udiv_def split_def Let_def)

lemma reply_set_intval:
  "reply (set_intval r) = (case answer r of Inl f \<Rightarrow> Inl f | Inr x \<Rightarrow> Inr (0, Intval x))"
  by (simp add: reply_def set_intval_def answer_def split: sum.splits prod.splits)

lemma answer_Inr: "answer (Inr p) = Inr (fst p)"
  by (simp add: answer_def split_def)

lemma answer_InrD: "answer r = Inr x \<Longrightarrow> \<exists>w'. r = Inr (x, w')"
  by (auto simp: answer_def split: sum.splits)

lemma set_intval_answer:
  "answer r = Inr x \<Longrightarrow> \<exists>w'. set_intval r = Inr (0, Intval x, w')"
  by (auto simp: answer_def set_intval_def split: sum.splits)

lemma battery_get_property_supported:
  assumes "p \<in> set battery_properties \<union> {POWER_SUPPLY_PROP_CAPACITY_LEVEL}"
  shows "\<exists>v w'. \<forall>val. battery_get_property adap p val w = Inr (0, v, w')"
proof (cases p)
  case POWER_SUPPLY_PROP_STATUS
  then show ?thesis
    using set_intval_answer [OF answer_Inr [of "battery_status adap w"]] by auto
next
  case POWER_SUPPLY_PROP_CAPACITY
  then show ?thesis
    using set_intval_answer [OF answer_battery_capacity [of adap w]] by auto
next
  case POWER_SUPPLY_PROP_TIME_TO_EMPTY_NOW
  have "\<exists>x. answer (battery_time_to_empty adap w) = Inr x"
    by (simp add: answer_battery_time_to_empty Let_def)
  then obtain x where "answer (battery_time_to_empty adap w) = Inr x" ..
  from set_intval_answer [OF this] POWER_SUPPLY_PROP_TIME_TO_EMPTY_NOW show ?thesis by auto
next
  case POWER_SUPPLY_PROP_TIME_TO_FULL_NOW
  have "\<exists>x. answer (battery_time_to_full adap w) = Inr x"
    by (simp add: answer_battery_time_to_full Let_def)
  then obtain x where "answer (battery_time_to_full adap w) = Inr x" ..
  from set_intval_answer [OF this] POWER_SUPPLY_PROP_TIME_TO_FULL_NOW show ?thesis by auto
next
  case POWER_SUPPLY_PROP_VOLTAGE_NOW
  then show ?thesis
    using set_intval_answer [OF answer_Inr [of "battery_voltage adap w"]] by auto
next
  case POWER_SUPPLY_PROP_CURRENT_NOW
  have "\<exists>x. answer (battery_current adap w) = Inr x"
    by (simp add: answer_battery_current Let_def)
  then obtain x where "answer (battery_current adap w) = Inr x" ..
  from set_intval_answer [OF this] POWER_SUPPLY_PROP_CURRENT_NOW show ?thesis by auto
next
  case POWER_SUPPLY_PROP_ENERGY_NOW
  then show ?thesis by (simp add: set_intval_def split_def Let_def)
next
  case POWER_SUPPLY_PROP_CAPACITY_LEVEL
  have "\<exists>x. answer (battery_capaity_level adap w) = Inr x"
    by (simp add: answer_battery_capaity_level Let_def)
  then obtain x where "answer (battery_capaity_level adap w) = Inr x" ..
  from set_intval_answer [OF this] POWER_SUPPLY_PROP_CAPACITY_LEVEL show ?thesis by auto
next
  case (POWER_SUPPLY_PROP_OTHER n)
  with assms show ?thesis by (simp add: battery_properties_def)
qed (simp_all add: set_intval_def)

section \<open>A bus on which every transfer fails\<close>

lemma dead_bus_fails: "\<forall>d m. fst (fst (dead_bus d m)) \<noteq> 1"
  by (simp add: dead_bus_def)

lemma battery_energy_fails:
  "\<forall>d m. fst (fst (adap d m)) \<noteq> 1 \<Longrightarrow> fst (battery_energy adap w) = 0"
  by (simp add: fst_battery_energy read_word_register_fails)

lemma battery_voltage_fails:
  "\<forall>d m. fst (fst (adap d m)) \<noteq> 1 \<Longrightarrow> fst (battery_voltage adap w) = 0"
  by (simp add: fst_battery_voltage read_word_register_fails)

lemma battery_rate_fails:
  "\<forall>d m. fst (fst (adap d m)) \<noteq> 1 \<Longrightarrow> fst (battery_rate adap w) = 0"
  by (simp add: fst_battery_rate battery_voltage_fails)

lemma battery_status_fails:
  "\<forall>d m. fst (fst (adap d m)) \<noteq> 1 \<Longrightarrow> fst (battery_status adap w) = POWER_SUPPLY_STATUS_FULL"
  by (simp add: battery_status_decode read_byte_register_fails)

lemma reply_fails:
  assumes "\<forall>d m. fst (fst (adap d m)) \<noteq> 1"
  shows "reply (battery_get_property adap POWER_SUPPLY_PROP_CAPACITY val w) = Inr (0, Intval 0)"
    and "reply (battery_get_property adap POWER_SUPPLY_PROP_STATUS val w) =
           Inr (0, Intval POWER_SUPPLY_STATUS_FULL)"
    and "reply (battery_get_property adap POWER_SUPPLY_PROP_TIME_TO_EMPTY_NOW val w) = Inr (0, Intval 0)"
    and "reply (battery_get_property adap POWER_SUPPLY_PROP_TIME_TO_FULL_NOW val w) = Inr (0, Intval 0)"
    and "reply (battery_get_property adap POWER_SUPPLY_PROP_VOLTAGE_NOW val w) = Inr (0, Intval 0)"
    and "reply (battery_get_property adap POWER_SUPPLY_PROP_CURRENT_NOW val w) = Inr (0, Intval 0)"
    and "reply (battery_get_property adap POWER_SUPPLY_PROP_ENERGY_NOW val w) = Inr (0, Intval 0)"
    and "reply (battery_get_property adap POWER_SUPPLY_PROP_CAPACITY_LEVEL val w) =
           Inr (0, Intval POWER_SUPPLY_CAPACITY_LEVEL_CRITICAL)"
proof -
  note fails = battery_energy_fails [OF assms] battery_voltage_fails [OF assms]
    battery_rate_fails [OF assms] battery_status_fails [OF assms]
  show "reply (battery_get_property adap POWER_SUPPLY_PROP_CAPACITY val w) = Inr (0, Intval 0)"
    by (simp add: reply_set_intval answer_battery_capacity fails)
  show "reply (battery_get_property adap POWER_SUPPLY_PROP_STATUS val w) =
           Inr (0, Intval POWER_SUPPLY_STATUS_FULL)"
    by (simp add: reply_set_intval answer_Inr fails)
  show "reply (battery_get_property adap POWER_SUPPLY_PROP_TIME_TO_EMPTY_NOW val w) = Inr (0, Intval 0)"
    by (simp add: reply_set_intval answer_battery_time_to_empty fails)
  show "reply (battery_get_property adap POWER_SUPPLY_PROP_TIME_TO_FULL_NOW val w) = Inr (0, Intval 0)"
    by (simp add: reply_set_intval answer_battery_time_to_full fails)
  show "reply (battery_get_property adap POWER_SUPPLY_PROP_VOLTAGE_NOW val w) = Inr (0, Intval 0)"
    by (simp add: reply_set_intval answer_Inr fails)
  show "reply (battery_get_property adap POWER_SUPPLY_PROP_CURRENT_NOW val w) = Inr (0, Intval 0)"
    by (simp add: reply_set_intval answer_battery_current fails)
  show "reply (battery_get_property adap POWER_SUPPLY_PROP_ENERGY_NOW val w) = Inr (0, Intval 0)"
    using fails(1) [of w]
    by (simp add: reply_def set_intval_def split_def Let_def)
  show "reply (battery_get_property adap POWER_SUPPLY_PROP_CAPACITY_LEVEL val w) =
           Inr (0, Intval POWER_SUPPLY_CAPACITY_LEVEL_CRITICAL)"
    by (simp add: reply_set_intval answer_battery_capaity_level fails)
qed

lemma reply_fixed:
  "reply (battery_get_property adap POWER_SUPPLY_PROP_ENERGY_FULL val w) = Inr (0, Intval 37500000)"
  "reply (battery_get_property adap POWER_SUPPLY_PROP_PRESENT val w) = Inr (0, Intval 1)"
  "reply (battery_get_property adap POWER_SUPPLY_PROP_TECHNOLOGY val w) =
     Inr (0, Intval POWER_SUPPLY_TECHNOLOGY_LION)"
  "reply (battery_get_property adap POWER_SUPPLY_PROP_MANUFACTURER val w) = Inr (0, Strval ''Acer'')"
  "reply (battery_get_property adap POWER_SUPPLY_PROP_MODEL_NAME val w) =
     Inr (0, Strval ''Acer Switch 11 Battery by jfrimmel'')"
  by (simp_all add: reply_def set_intval_def battery_energy_full_def)

section \<open>Facts about the register device\<close>

lemma fst_read_word_register_device:
  "fst (read_word_register (register_device regs) reg w) =
     ucast (regs reg) OR push_bit 8 (ucast (regs (reg + 1)))"
proof -
  have "(ucast (push_bit 8 (ucast x :: u32) OR ucast y) :: u16) = ucast y OR push_bit 8 (ucast x)"
    for x y :: u8
    by (rule bit_word_eqI) (auto simp: bit_simps)
  then show ?thesis by (simp add: read_word_register_register_device)
qed

lemmas run_device =
  fst_battery_energy fst_battery_voltage fst_battery_rate fst_read_word_register_device
  BATTERY_REGISTER_ENERGY_def BATTERY_REGISTER_VOLTAGE_def BATTERY_REGISTER_RATE_def

lemma battery_voltage_less: "battery_voltage adap w = (v, w1) \<Longrightarrow> unat v < 65536"
  using unat_u16_less by (auto simp: battery_voltage_def split_def Let_def unat_ucast_u16_u32)

lemma battery_energy_le: "battery_energy adap w = (e, w1) \<Longrightarrow> unat e \<le> 655350"
proof -
  assume "battery_energy adap w = (e, w1)"
  then obtain r where "e = ucast (r :: u16) * 10"
    by (auto simp: battery_energy_def split_def Let_def)
  then show ?thesis using unat_u16_less [of r] by (simp add: unat_energy)
qed

lemma level_enumerators_distinct:
  "POWER_SUPPLY_CAPACITY_LEVEL_FULL \<noteq> POWER_SUPPLY_CAPACITY_LEVEL_CRITICAL"
  by (simp add: POWER_SUPPLY_CAPACITY_LEVEL_FULL_def POWER_SUPPLY_CAPACITY_LEVEL_CRITICAL_def)

lemma battery_capacity_run:
  assumes "battery_energy adap w = (e, w1)"
  shows "battery_capacity adap w = Inr (100 * e div 37500, w1)"
  using assms
  by (simp add: battery_capacity_def battery_energy_full_def lnot_def unlikely_def udiv_def Let_def)

section \<open>The claims\<close>

text \<open>
  C1, as the code has it. If no bus transfer succeeds, every register read returns the
  sentinel 0 and every property of the provider is answered with return code 0 and
  without a fault, so no division by zero is reached: capacity, time to empty, time to
  full, voltage, current and energy now are 0; the status is full, as the status byte 0
  has bits 0 and 1 clear; the capacity level is critical; energy full is 37500000,
  present is 1, the technology is lithium ion and the two strings are the module's.
\<close>

theorem all_transfers_fail:
  assumes "\<forall>d m. fst (fst (adap d m)) \<noteq> 1"
  shows "fst (read_byte_register adap reg w) = 0x00
    \<and> reply (battery_get_property adap POWER_SUPPLY_PROP_CAPACITY val w) = Inr (0, Intval 0)
    \<and> reply (battery_get_property adap POWER_SUPPLY_PROP_TIME_TO_EMPTY_NOW val w) = Inr (0, Intval 0)
    \<and> reply (battery_get_property adap POWER_SUPPLY_PROP_TIME_TO_FULL_NOW val w) = Inr (0, Intval 0)
    \<and> reply (battery_get_property adap POWER_SUPPLY_PROP_VOLTAGE_NOW val w) = Inr (0, Intval 0)
    \<and> reply (battery_get_property adap POWER_SUPPLY_PROP_CURRENT_NOW val w) = Inr (0, Intval 0)
    \<and> reply (battery_get_property adap POWER_SUPPLY_PROP_ENERGY_NOW val w) = Inr (0, Intval 0)
    \<and> reply (battery_get_property adap POWER_SUPPLY_PROP_STATUS val w) =
         Inr (0, Intval POWER_SUPPLY_STATUS_FULL)
    \<and> reply (battery_get_property adap POWER_SUPPLY_PROP_CAPACITY_LEVEL val w) =
         Inr (0, Intval POWER_SUPPLY_CAPACITY_LEVEL_CRITICAL)
    \<and> reply (battery_get_property adap POWER_SUPPLY_PROP_ENERGY_FULL val w) =
         Inr (0, Intval 37500000)
    \<and> reply (battery_get_property adap POWER_SUPPLY_PROP_PRESENT val w) = Inr (0, Intval 1)
    \<and> reply (battery_get_property adap POWER_SUPPLY_PROP_TECHNOLOGY val w) =
         Inr (0, Intval POWER_SUPPLY_TECHNOLOGY_LION)
    \<and> reply (battery_get_property adap POWER_SUPPLY_PROP_MANUFACTURER val w) =
         Inr (0, Strval ''Acer'')
    \<and> reply (battery_get_property adap POWER_SUPPLY_PROP_MODEL_NAME val w) =
         Inr (0, Strval ''Acer Switch 11 Battery by jfrimmel'')"
  using read_byte_register_fails [OF assms, of reg w] reply_fails [OF assms, of val w]
    reply_fixed [of adap val w]
  by (intro conjI)

text \<open>The dead bus fails every transfer; some of the answers on it.\<close>

theorem all_transfers_fail_witness:
  "(\<forall>d m. fst (fst (dead_bus d m)) \<noteq> 1)
    \<and> fst (read_byte_register dead_bus 0xC1 (boot ())) = 0x00
    \<and> reply (battery_get_property dead_bus POWER_SUPPLY_PROP_CAPACITY (Intval 99) (boot ())) =
         Inr (0, Intval 0)
    \<and> reply (battery_get_property dead_bus POWER_SUPPLY_PROP_CURRENT_NOW (Intval 99) (boot ())) =
         Inr (0, Intval 0)
    \<and> reply (battery_get_property dead_bus POWER_SUPPLY_PROP_TIME_TO_FULL_NOW (Intval 99) (boot ())) =
         Inr (0, Intval 0)
    \<and> reply (battery_get_property dead_bus POWER_SUPPLY_PROP_CAPACITY_LEVEL (Intval 99) (boot ())) =
         Inr (0, Intval POWER_SUPPLY_CAPACITY_LEVEL_CRITICAL)"
  using all_transfers_fail [OF dead_bus_fails, of "0xC1" "boot ()" "Intval 99"] dead_bus_fails
  by simp

text \<open>
  The claim's own wording fails on the dead bus: the status it answers is full, not
  unknown, and energy full and present are numeric answers that are not 0.
\<close>

theorem dead_bus_status_is_full:
  "reply (battery_get_property dead_bus POWER_SUPPLY_PROP_STATUS (Intval 99) (boot ())) =
     Inr (0, Intval POWER_SUPPLY_STATUS_FULL)
   \<and> POWER_SUPPLY_STATUS_FULL \<noteq> POWER_SUPPLY_STATUS_UNKNOWN
   \<and> reply (battery_get_property dead_bus POWER_SUPPLY_PROP_ENERGY_FULL (Intval 99) (boot ())) =
     Inr (0, Intval 37500000)
   \<and> reply (battery_get_property dead_bus POWER_SUPPLY_PROP_PRESENT (Intval 99) (boot ())) =
     Inr (0, Intval 1)"
  using reply_fails(2) [OF dead_bus_fails, of "Intval 99" "boot ()"]
    reply_fixed(1,2) [of dead_bus "Intval 99" "boot ()"] status_enumerators_distinct(3)
  by (intro conjI)

text \<open>
  C2. The source means to clamp a negative shortfall to 0, but tests
  \<^verbatim>\<open>unlikely(energy_missing) < 0\<close>, which is never true (\<open>unlikely_never_negative\<close>). With
  the registers holding an energy of 37510 mWh, above the 37500 mWh of a full battery, and
  a rate of 1 mW, the shortfall \<open>- 10\<close> is widened with its sign to 64 bits, multiplied
  and cut to 32 bits: the answer is 4258967296, where the clamp would give 0.
\<close>

theorem battery_time_to_full_not_clamped:
  "fst (battery_energy
        (register_device ((\<lambda>_. 0)(0xD0 := 0x01, 0xC6 := 0x01, 0xC2 := 0xA7, 0xC3 := 0x0E)))
        (boot 0)) = 37510
   \<and> fst (battery_rate
        (register_device ((\<lambda>_. 0)(0xD0 := 0x01, 0xC6 := 0x01, 0xC2 := 0xA7, 0xC3 := 0x0E)))
        (boot 0)) = 1
   \<and> answer (battery_time_to_full
        (register_device ((\<lambda>_. 0)(0xD0 := 0x01, 0xC6 := 0x01, 0xC2 := 0xA7, 0xC3 := 0x0E)))
        (boot 0)) = Inr 4258967296"
proof -
  let ?D = "register_device ((\<lambda>_. 0)(0xD0 := 0x01, 0xC6 := 0x01, 0xC2 := 0xA7, 0xC3 := 0x0E))"
  have e: "fst (battery_energy ?D w') = 37510" for w'
    by (simp add: run_device)
  have r: "fst (battery_rate ?D w') = 1" for w'
    by (simp add: run_device)
  have "answer (battery_time_to_full ?D (boot 0)) = Inr 4258967296"
    by (simp add: answer_battery_time_to_full e r battery_energy_full_def)
  with e [of "boot 0"] r [of "boot 0"] show ?thesis by simp
qed

text \<open>
  C3. The transfers a call of \<^verbatim>\<open>read_byte_register\<close> adds to the wire are between one and
  five write attempts, all but the last of them failed, followed by read attempts only
  if the last write attempt succeeded. If the fifth write attempt fails too, no read is
  issued and the result is 0x00. Otherwise there are between one and five read attempts,
  all but the last failed; if the fifth fails the result is 0x00, and if the last one
  succeeded the result is the byte it received. The function returns a byte in every
  case: its type has no error.
\<close>

theorem read_byte_register_retries:
  assumes "read_byte_register adap reg w = (v, w')"
  shows "\<exists>ws rs.
      wire w' = wire w
        @ map (Pair \<lparr>addr = BATTERY_I2C_ADDRESS, flags = 0, len = 5,
                      buf = [0x02, 0x80, reg, 0, 0, 0, 0, 0]\<rparr>) ws
        @ map (Pair \<lparr>addr = BATTERY_I2C_ADDRESS, flags = I2C_M_RD, len = 1, buf = []\<rparr>) rs
    \<and> ws \<noteq> [] \<and> length ws \<le> 5 \<and> length rs \<le> 5
    \<and> list_all (\<lambda>e. fst e \<noteq> 1) (butlast ws)
    \<and> list_all (\<lambda>e. fst e \<noteq> 1) (butlast rs)
    \<and> (if fst (last ws) \<noteq> 1 then length ws = 5 \<and> rs = [] \<and> v = 0
        else rs \<noteq> [] \<and>
          (if fst (last rs) \<noteq> 1 then length rs = 5 \<and> v = 0 else v = snd (last rs)))"
  using assms by (rule read_byte_register_wire)

text \<open>
  A bus that fails the first two writes and the first read: three write attempts, two
  read attempts, and the byte 0x5A of the last one.
\<close>

theorem read_byte_register_retries_witness:
  "\<exists>w'. read_byte_register scripted_bus 0xC1
          (boot [(- 5, 0x00), (- 6, 0x01), (1, 0x02), (- 5, 0x03), (1, 0x5A), (1, 0x77)]) = (0x5A, w')
    \<and> (\<exists>ws rs.
      wire w' = wire (boot [(- 5 :: int, 0x00 :: u8), (- 6, 0x01), (1, 0x02), (- 5, 0x03), (1, 0x5A), (1, 0x77)])
        @ map (Pair \<lparr>addr = BATTERY_I2C_ADDRESS, flags = 0, len = 5,
                      buf = [0x02, 0x80, 0xC1, 0, 0, 0, 0, 0]\<rparr>) ws
        @ map (Pair \<lparr>addr = BATTERY_I2C_ADDRESS, flags = I2C_M_RD, len = 1, buf = []\<rparr>) rs
    \<and> ws \<noteq> [] \<and> length ws \<le> 5 \<and> length rs \<le> 5
    \<and> list_all (\<lambda>e. fst e \<noteq> 1) (butlast ws)
    \<and> list_all (\<lambda>e. fst e \<noteq> 1) (butlast rs)
    \<and> (if fst (last ws) \<noteq> 1 then length ws = 5 \<and> rs = [] \<and> (0x5A :: u8) = 0
        else rs \<noteq> [] \<and>
          (if fst (last rs) \<noteq> 1 then length rs = 5 \<and> (0x5A :: u8) = 0
           else 0x5A = snd (last rs))))"
proof -
  from run_scripted obtain w' where run: "read_byte_register scripted_bus 0xC1
      (boot [(- 5, 0x00), (- 6, 0x01), (1, 0x02), (- 5, 0x03), (1, 0x5A), (1, 0x77)]) = (0x5A, w')"
    by blast
  show ?thesis
    by (rule exI [of _ w'], rule conjI [OF run read_byte_register_retries [OF run]])
qed

text \<open>
  C4. The rate is the magnitude of the raw RATE word times the voltage read after it,
  as natural numbers, so without wrap-around: the magnitude is \<open>0x10000 - raw\<close> if
  \<open>raw > 0x7FFF\<close> and \<open>raw\<close> otherwise. The raw word 0x8000 has magnitude 0x8000, the
  raw word 0x7FFF has magnitude 0x7FFF, and the rate is 0 when the voltage is 0.
\<close>

theorem battery_rate_sign_magnitude:
  assumes "read_word_register adap BATTERY_REGISTER_RATE w = (raw, w1)"
    and "battery_voltage adap w1 = (voltage_now, w2)"
  shows "\<exists>rate. battery_rate adap w = (rate, w2)
      \<and> unat rate = (if unat raw > 0x7FFF then 0x10000 - unat raw else unat raw) * unat voltage_now
      \<and> (raw = 0x8000 \<longrightarrow> unat rate = 0x8000 * unat voltage_now)
      \<and> (raw = 0x7FFF \<longrightarrow> unat rate = 0x7FFF * unat voltage_now)
      \<and> (voltage_now = 0 \<longrightarrow> rate = 0)"
proof -
  let ?m = "if (ucast raw :: u32) > 0x7FFF then 0x10000 - ucast raw else (ucast raw :: u32)"
  have run: "battery_rate adap w = (?m * voltage_now, w2)"
    using assms by (simp add: battery_rate_def Let_def)
  have m: "unat ?m = (if unat raw > 0x7FFF then 0x10000 - unat raw else unat raw)"
    by (rule unat_magnitude)
  have "unat ?m \<le> 0x8000"
    unfolding m using unat_u16_less [of raw] by (simp split: if_splits) arith
  then have prod: "unat (?m * voltage_now) = unat ?m * unat voltage_now"
    using battery_voltage_less [OF assms(2)] by (rule unat_mult_small)
  have gen: "unat (?m * voltage_now) =
      (if unat raw > 0x7FFF then 0x10000 - unat raw else unat raw) * unat voltage_now"
    by (simp only: prod m)
  show ?thesis
  proof (intro exI [of _ "?m * voltage_now"] conjI impI)
    show "battery_rate adap w = (?m * voltage_now, w2)" by (rule run)
    show "unat (?m * voltage_now) =
        (if unat raw > 0x7FFF then 0x10000 - unat raw else unat raw) * unat voltage_now"
      by (rule gen)
    show "unat (?m * voltage_now) = 0x8000 * unat voltage_now" if "raw = 0x8000"
      unfolding gen using that by simp
    show "unat (?m * voltage_now) = 0x7FFF * unat voltage_now" if "raw = 0x7FFF"
      unfolding gen using that by simp
    show "?m * voltage_now = 0" if "voltage_now = 0"
      using that by simp
  qed
qed

text \<open>A device with the raw rate 0x8000 and 3 mV.\<close>

theorem battery_rate_sign_magnitude_witness:
  "fst (read_word_register (register_device ((\<lambda>_. 0)(0xD1 := 0x80, 0xC6 := 0x03)))
         BATTERY_REGISTER_RATE (boot 0)) = 0x8000
   \<and> fst (battery_voltage (register_device ((\<lambda>_. 0)(0xD1 := 0x80, 0xC6 := 0x03)))
         (snd (read_word_register (register_device ((\<lambda>_. 0)(0xD1 := 0x80, 0xC6 := 0x03)))
            BATTERY_REGISTER_RATE (boot 0)))) = 3
   \<and> unat (fst (battery_rate (register_device ((\<lambda>_. 0)(0xD1 := 0x80, 0xC6 := 0x03))) (boot 0)))
       = 0x8000 * 3"
proof -
  let ?D = "register_device ((\<lambda>_. 0)(0xD1 := 0x80, 0xC6 := 0x03))"
  let ?w1 = "snd (read_word_register ?D BATTERY_REGISTER_RATE (boot 0))"
  let ?w2 = "snd (battery_voltage ?D ?w1)"
  have raw: "read_word_register ?D BATTERY_REGISTER_RATE (boot 0) = (0x8000, ?w1)"
    by (simp add: prod_eq_iff run_device)
  have v: "battery_voltage ?D ?w1 = (3, ?w2)"
    by (simp add: prod_eq_iff run_device)
  from battery_rate_sign_magnitude [OF raw v]
  obtain rate where "battery_rate ?D (boot 0) = (rate, ?w2)" "unat rate = 0x8000 * unat (3 :: u32)"
    by auto
  then show ?thesis
    by (simp add: run_device)
qed

text \<open>
  C5. The capacity is \<open>100 * energy_now div 37500\<close> as natural numbers, and the capacity
  level is found by testing it in this order: equal to 100 gives full, at most 5 gives
  critical, at most 15 gives low, anything else normal; full and critical are different
  levels. With the ENERGY bytes 0x64 (low) and 0x00 (high) the energy is 1000 mWh, the
  capacity 2 and the level critical.
\<close>

theorem battery_capaity_level_thresholds:
  assumes "battery_energy adap w = (energy_now, w1)"
  shows "(\<exists>capacity. battery_capacity adap w = Inr (capacity, w1)
      \<and> unat capacity = 100 * unat energy_now div 37500
      \<and> battery_capaity_level adap w =
          Inr (if unat capacity = 100 then POWER_SUPPLY_CAPACITY_LEVEL_FULL
               else if unat capacity \<le> 5 then POWER_SUPPLY_CAPACITY_LEVEL_CRITICAL
               else if unat capacity \<le> 15 then POWER_SUPPLY_CAPACITY_LEVEL_LOW
               else POWER_SUPPLY_CAPACITY_LEVEL_NORMAL, w1))
    \<and> POWER_SUPPLY_CAPACITY_LEVEL_FULL \<noteq> POWER_SUPPLY_CAPACITY_LEVEL_CRITICAL
    \<and> fst (battery_energy (register_device ((\<lambda>_. 0)(0xC2 := 0x64, 0xC3 := 0x00))) (boot 0)) = 1000
    \<and> answer (battery_capacity (register_device ((\<lambda>_. 0)(0xC2 := 0x64, 0xC3 := 0x00))) (boot 0)) = Inr 2
    \<and> answer (battery_capaity_level (register_device ((\<lambda>_. 0)(0xC2 := 0x64, 0xC3 := 0x00))) (boot 0))
        = Inr POWER_SUPPLY_CAPACITY_LEVEL_CRITICAL"
proof -
  let ?c = "100 * energy_now div 37500"
  have run: "battery_capacity adap w = Inr (?c, w1)"
    using assms by (rule battery_capacity_run)
  have c: "unat ?c = 100 * unat energy_now div 37500"
    using battery_energy_le [OF assms] by (rule unat_capacity)
  have tests: "?c = 100 \<longleftrightarrow> unat ?c = 100" "?c \<le> 5 \<longleftrightarrow> unat ?c \<le> 5" "?c \<le> 15 \<longleftrightarrow> unat ?c \<le> 15"
    by (simp_all add: word_le_nat_alt word_unat_eq_iff)
  have level: "battery_capaity_level adap w =
          Inr (if unat ?c = 100 then POWER_SUPPLY_CAPACITY_LEVEL_FULL
               else if unat ?c \<le> 5 then POWER_SUPPLY_CAPACITY_LEVEL_CRITICAL
               else if unat ?c \<le> 15 then POWER_SUPPLY_CAPACITY_LEVEL_LOW
               else POWER_SUPPLY_CAPACITY_LEVEL_NORMAL, w1)"
    unfolding battery_capaity_level_def run using tests by auto
  let ?D = "register_device ((\<lambda>_. 0)(0xC2 := 0x64, 0xC3 := 0x00))"
  have e: "fst (battery_energy ?D w') = 1000" for w'
    by (simp add: run_device)
  have "answer (battery_capacity ?D (boot 0)) = Inr 2"
    by (simp add: answer_battery_capacity e)
  moreover have "answer (battery_capaity_level ?D (boot 0)) = Inr POWER_SUPPLY_CAPACITY_LEVEL_CRITICAL"
    by (simp add: answer_battery_capaity_level e)
  ultimately show ?thesis
    using run c level level_enumerators_distinct e [of "boot 0"] by blast
qed

text \<open>A device with 37500 mWh: capacity 100, level full.\<close>

theorem battery_capaity_level_thresholds_witness:
  "fst (battery_energy (register_device ((\<lambda>_. 0)(0xC2 := 0xA6, 0xC3 := 0x0E))) (boot 0)) = 37500
   \<and> answer (battery_capacity (register_device ((\<lambda>_. 0)(0xC2 := 0xA6, 0xC3 := 0x0E))) (boot 0)) = Inr 100
   \<and> answer (battery_capaity_level (register_device ((\<lambda>_. 0)(0xC2 := 0xA6, 0xC3 := 0x0E))) (boot 0))
       = Inr POWER_SUPPLY_CAPACITY_LEVEL_FULL"
proof -
  let ?D = "register_device ((\<lambda>_. 0)(0xC2 := 0xA6, 0xC3 := 0x0E))"
  have e: "battery_energy ?D (boot 0) = (37500, snd (battery_energy ?D (boot 0)))"
    by (simp add: prod_eq_iff run_device)
  from battery_capaity_level_thresholds [OF e]
  obtain capacity where "battery_capacity ?D (boot 0) = Inr (capacity, snd (battery_energy ?D (boot 0)))"
    "unat capacity = 100 * unat (37500 :: u32) div 37500"
    "battery_capaity_level ?D (boot 0) =
          Inr (if unat capacity = 100 then POWER_SUPPLY_CAPACITY_LEVEL_FULL
               else if unat capacity \<le> 5 then POWER_SUPPLY_CAPACITY_LEVEL_CRITICAL
               else if unat capacity \<le> 15 then POWER_SUPPLY_CAPACITY_LEVEL_LOW
               else POWER_SUPPLY_CAPACITY_LEVEL_NORMAL, snd (battery_energy ?D (boot 0)))"
    by blast
  moreover from this(2) have "capacity = 100" by (simp add: word_unat_eq_iff)
  ultimately show ?thesis
    by (simp add: answer_def run_device)
qed

text \<open>
  C6. The word read at \<open>reg\<close> is the byte read at \<open>reg\<close> or-ed with the byte read at
  \<open>reg + 1\<close> shifted left by 8: two byte reads one after the other on the same bus, the
  low byte at \<open>reg\<close>, the high byte at \<open>reg + 1\<close> (an 8-bit sum, as the argument of
  \<^verbatim>\<open>read_byte_register\<close> is a \<^verbatim>\<open>u8\<close>), nothing lost in the promotion to \<^verbatim>\<open>int\<close> and the cut
  to 16 bits. On a device whose registers hold still, both byte reads may start anywhere.
\<close>

theorem read_word_register_little_endian:
  assumes "read_byte_register adap (reg + 1) w = (hi, w1)"
    and "read_byte_register adap reg w1 = (lo, w2)"
  shows "read_word_register adap reg w = (ucast lo OR push_bit 8 (ucast hi), w2)
    \<and> unat (fst (read_word_register adap reg w)) = unat lo + 256 * unat hi
    \<and> fst (read_word_register (register_device regs) r w') =
        ucast (fst (read_byte_register (register_device regs) r w'))
          OR push_bit 8 (ucast (fst (read_byte_register (register_device regs) (r + 1) w')))"
proof -
  have cut: "(ucast (push_bit 8 (ucast x :: u32) OR ucast y) :: u16) = ucast y OR push_bit 8 (ucast x)"
    for x y :: u8
    by (rule bit_word_eqI) (auto simp: bit_simps)
  from assms have "read_word_register adap reg w = (ucast lo OR push_bit 8 (ucast hi), w2)"
    by (simp add: read_word_register_def cut)
  moreover from assms have "unat (fst (read_word_register adap reg w)) = unat lo + 256 * unat hi"
    by (simp add: read_word_register_def unat_read_word)
  moreover have "fst (read_word_register (register_device regs) r w') =
        ucast (fst (read_byte_register (register_device regs) r w'))
          OR push_bit 8 (ucast (fst (read_byte_register (register_device regs) (r + 1) w')))"
    by (simp add: read_word_register_register_device read_byte_register_register_device cut)
  ultimately show ?thesis by simp
qed

text \<open>The word at 0xC2 of a device that holds 0x64 there and 0x01 at 0xC3.\<close>

theorem read_word_register_little_endian_witness:
  "fst (read_byte_register (register_device ((\<lambda>_. 0)(0xC2 := 0x64, 0xC3 := 0x01))) (0xC2 + 1) (boot 0)) = 0x01
   \<and> fst (read_byte_register (register_device ((\<lambda>_. 0)(0xC2 := 0x64, 0xC3 := 0x01))) 0xC2
        (snd (read_byte_register (register_device ((\<lambda>_. 0)(0xC2 := 0x64, 0xC3 := 0x01))) (0xC2 + 1) (boot 0)))) = 0x64
   \<and> fst (read_word_register (register_device ((\<lambda>_. 0)(0xC2 := 0x64, 0xC3 := 0x01))) 0xC2 (boot 0)) = 0x0164
   \<and> unat (fst (read_word_register (register_device ((\<lambda>_. 0)(0xC2 := 0x64, 0xC3 := 0x01))) 0xC2 (boot 0))) = 356"
proof -
  let ?D = "register_device ((\<lambda>_. 0)(0xC2 := 0x64, 0xC3 := 0x01))"
  let ?w1 = "snd (read_byte_register ?D (0xC2 + 1) (boot 0))"
  let ?w2 = "snd (read_byte_register ?D 0xC2 ?w1)"
  have hi: "read_byte_register ?D (0xC2 + 1) (boot 0) = (0x01, ?w1)"
    by (simp add: prod_eq_iff read_byte_register_register_device)
  have lo: "read_byte_register ?D 0xC2 ?w1 = (0x64, ?w2)"
    by (simp add: prod_eq_iff read_byte_register_register_device)
  from read_word_register_little_endian [OF hi lo] show ?thesis
    by (simp add: read_byte_register_register_device)
qed

text \<open>
  C7, as the code has it. Every write attempt of \<^verbatim>\<open>read_byte_register\<close> is one transfer
  of one write message of length 5 to the battery's address: the bytes 0x02, 0x80, the
  register address and two zero bytes, the first five of the zeroed 8-byte buffer. There
  is at least one such attempt, and every other transfer is a one-byte read.
\<close>

theorem read_byte_register_command:
  assumes "read_byte_register adap reg w = (v, w')"
  shows "payload \<lparr>addr = BATTERY_I2C_ADDRESS, flags = 0, len = 5,
                  buf = [0x02, 0x80, reg, 0, 0, 0, 0, 0]\<rparr> = [0x02, 0x80, reg, 0x00, 0x00]
    \<and> (\<exists>ws rs.
      wire w' = wire w
        @ map (Pair \<lparr>addr = BATTERY_I2C_ADDRESS, flags = 0, len = 5,
                      buf = [0x02, 0x80, reg, 0, 0, 0, 0, 0]\<rparr>) ws
        @ map (Pair \<lparr>addr = BATTERY_I2C_ADDRESS, flags = I2C_M_RD, len = 1, buf = []\<rparr>) rs
      \<and> ws \<noteq> [])"
proof -
  have "payload \<lparr>addr = BATTERY_I2C_ADDRESS, flags = 0, len = 5,
                  buf = [0x02, 0x80, reg, 0, 0, 0, 0, 0]\<rparr> = [0x02, 0x80, reg, 0x00, 0x00]"
    by (simp add: payload_def)
  moreover from read_byte_register_wire [OF assms] have "\<exists>ws rs.
      wire w' = wire w
        @ map (Pair \<lparr>addr = BATTERY_I2C_ADDRESS, flags = 0, len = 5,
                      buf = [0x02, 0x80, reg, 0, 0, 0, 0, 0]\<rparr>) ws
        @ map (Pair \<lparr>addr = BATTERY_I2C_ADDRESS, flags = I2C_M_RD, len = 1, buf = []\<rparr>) rs
      \<and> ws \<noteq> []"
    by blast
  ultimately show ?thesis by (rule conjI)
qed

text \<open>A read of register 0xD0 on the register device.\<close>

theorem read_byte_register_command_witness:
  "\<exists>w'. read_byte_register (register_device (\<lambda>_. 0x2A)) 0xD0 (boot 0) = (0x2A, w')
    \<and> payload \<lparr>addr = BATTERY_I2C_ADDRESS, flags = 0, len = 5,
                  buf = [0x02, 0x80, 0xD0, 0, 0, 0, 0, 0]\<rparr> = [0x02, 0x80, 0xD0, 0x00, 0x00]
    \<and> (\<exists>ws rs.
      wire w' = wire (boot (0 :: u8))
        @ map (Pair \<lparr>addr = BATTERY_I2C_ADDRESS, flags = 0, len = 5,
                      buf = [0x02, 0x80, 0xD0, 0, 0, 0, 0, 0]\<rparr>) ws
        @ map (Pair \<lparr>addr = BATTERY_I2C_ADDRESS, flags = I2C_M_RD, len = 1, buf = []\<rparr>) rs
      \<and> ws \<noteq> [])"
proof -
  from run_register_device obtain w' where
    run: "read_byte_register (register_device (\<lambda>_. 0x2A)) 0xD0 (boot 0) = (0x2A, w')"
    by blast
  show ?thesis
    by (rule exI [of _ w'], rule conjI [OF run read_byte_register_command [OF run]])
qed

text \<open>
  The claim's own wording fails there: the first message on the wire has length 5, and
  its bytes are not the three bytes 0x02, 0x80, 0xD0.
\<close>

theorem write_phase_is_five_bytes:
  "len (fst (hd (wire (snd (read_byte_register (register_device (\<lambda>_. 0x2A)) 0xD0 (boot 0)))))) = 5
   \<and> payload (fst (hd (wire (snd (read_byte_register (register_device (\<lambda>_. 0x2A)) 0xD0 (boot 0))))))
       = [0x02, 0x80, 0xD0, 0x00, 0x00]
   \<and> payload (fst (hd (wire (snd (read_byte_register (register_device (\<lambda>_. 0x2A)) 0xD0 (boot 0))))))
       \<noteq> [0x02, 0x80, 0xD0]"
  by (simp add: run_register_device payload_def)

text \<open>
  C8. The current is the rate divided by the voltage read before it, as natural numbers.
  If that voltage is 0 the answer is 0 and the world is the one the voltage read left:
  no rate is read and nothing is divided. With the raw RATE word 0xFF9C and 7400 mV the
  rate is 740000 mW and the current 100 mA.
\<close>

theorem battery_current_guarded:
  assumes "battery_voltage adap w = (voltage_now, w1)"
    and "battery_rate adap w1 = (rate, w2)"
  shows "battery_current adap w =
           (if voltage_now = 0 then Inr (0, w1) else Inr (rate div voltage_now, w2))
    \<and> unat (rate div voltage_now) = unat rate div unat voltage_now
    \<and> fst (battery_voltage
          (register_device ((\<lambda>_. 0)(0xD0 := 0x9C, 0xD1 := 0xFF, 0xC6 := 0xE8, 0xC7 := 0x1C)))
          (boot 0)) = 7400
    \<and> fst (battery_rate
          (register_device ((\<lambda>_. 0)(0xD0 := 0x9C, 0xD1 := 0xFF, 0xC6 := 0xE8, 0xC7 := 0x1C)))
          (boot 0)) = 740000
    \<and> answer (battery_current
          (register_device ((\<lambda>_. 0)(0xD0 := 0x9C, 0xD1 := 0xFF, 0xC6 := 0xE8, 0xC7 := 0x1C)))
          (boot 0)) = Inr 100"
proof -
  let ?D = "register_device ((\<lambda>_. 0)(0xD0 := 0x9C, 0xD1 := 0xFF, 0xC6 := 0xE8, 0xC7 := 0x1C))"
  have run: "battery_current adap w =
           (if voltage_now = 0 then Inr (0, w1) else Inr (rate div voltage_now, w2))"
    using assms by (simp add: battery_current_def lnot_def unlikely_def udiv_def Let_def)
  have v: "fst (battery_voltage ?D w') = 7400" for w'
    by (simp add: run_device)
  have r: "fst (battery_rate ?D w') = 740000" for w'
    by (simp add: run_device)
  have "answer (battery_current ?D (boot 0)) = Inr 100"
    by (simp add: answer_battery_current v r)
  with run v [of "boot 0"] r [of "boot 0"] show ?thesis
    by (simp add: unat_div)
qed

text \<open>A device with 0 mV, and one with a raw rate of 5 and 2 mV.\<close>

theorem battery_current_guarded_witness:
  "fst (battery_voltage (register_device ((\<lambda>_. 0)(0xD0 := 0x05))) (boot 0)) = 0
   \<and> answer (battery_current (register_device ((\<lambda>_. 0)(0xD0 := 0x05))) (boot 0)) = Inr 0
   \<and> fst (battery_voltage (register_device ((\<lambda>_. 0)(0xD0 := 0x05, 0xC6 := 0x02))) (boot 0)) = 2
   \<and> answer (battery_current (register_device ((\<lambda>_. 0)(0xD0 := 0x05, 0xC6 := 0x02))) (boot 0)) = Inr 5"
proof -
  let ?D = "register_device ((\<lambda>_. 0)(0xD0 := 0x05))"
  let ?w1 = "snd (battery_voltage ?D (boot 0))"
  have v: "battery_voltage ?D (boot 0) = (0, ?w1)"
    by (simp add: prod_eq_iff run_device)
  have r: "battery_rate ?D ?w1 = (fst (battery_rate ?D ?w1), snd (battery_rate ?D ?w1))"
    by simp
  let ?E = "register_device ((\<lambda>_. 0)(0xD0 := 0x05, 0xC6 := 0x02))"
  let ?u1 = "snd (battery_voltage ?E (boot 0))"
  have v': "battery_voltage ?E (boot 0) = (2, ?u1)"
    by (simp add: prod_eq_iff run_device)
  have r': "battery_rate ?E ?u1 = (10, snd (battery_rate ?E ?u1))"
    by (simp add: prod_eq_iff run_device)
  from battery_current_guarded [OF v r] battery_current_guarded [OF v' r']
  show ?thesis
    by (simp add: answer_def run_device)
qed

text \<open>
  C9. For every identifier the \<^verbatim>\<open>switch\<close> names (the twelve of \<open>battery_properties\<close> and
  the capacity level) \<^verbatim>\<open>battery_get_property\<close> returns 0 and writes a value that does
  not depend on what the union held; for every other identifier it returns \<open>- EINVAL\<close>,
  a negative code, logs one line and leaves the union as it was. It never faults, so
  this is the only failure the caller sees.
\<close>

theorem battery_get_property_codes:
  "(p \<in> set battery_properties \<union> {POWER_SUPPLY_PROP_CAPACITY_LEVEL} \<longrightarrow>
      (\<exists>v w'. \<forall>val. battery_get_property adap p val w = Inr (0, v, w')))
   \<and> (p \<notin> set battery_properties \<union> {POWER_SUPPLY_PROP_CAPACITY_LEVEL} \<longrightarrow>
      battery_get_property adap p val w = Inr (- EINVAL, val, printk Unknown_report w)
      \<and> - EINVAL < 0)"
proof (intro conjI impI)
  assume "p \<in> set battery_properties \<union> {POWER_SUPPLY_PROP_CAPACITY_LEVEL}"
  then show "\<exists>v w'. \<forall>val. battery_get_property adap p val w = Inr (0, v, w')"
    by (rule battery_get_property_supported)
next
  assume out: "p \<notin> set battery_properties \<union> {POWER_SUPPLY_PROP_CAPACITY_LEVEL}"
  then show "battery_get_property adap p val w = Inr (- EINVAL, val, printk Unknown_report w)"
    by (cases p) (simp_all add: battery_properties_def)
  show "- EINVAL < 0" by (simp add: EINVAL_def)
qed

text \<open>A supported identifier and an unsupported one.\<close>

theorem battery_get_property_codes_witness:
  "POWER_SUPPLY_PROP_PRESENT \<in> set battery_properties \<union> {POWER_SUPPLY_PROP_CAPACITY_LEVEL}
   \<and> (\<exists>v w'. \<forall>val. battery_get_property dead_bus POWER_SUPPLY_PROP_PRESENT val (boot ()) = Inr (0, v, w'))
   \<and> POWER_SUPPLY_PROP_OTHER 7 \<notin> set battery_properties \<union> {POWER_SUPPLY_PROP_CAPACITY_LEVEL}
   \<and> battery_get_property dead_bus (POWER_SUPPLY_PROP_OTHER 7) (Intval 99) (boot ()) =
       Inr (- EINVAL, Intval 99, printk Unknown_report (boot ()))
   \<and> - EINVAL < 0"
proof -
  have a: "POWER_SUPPLY_PROP_PRESENT \<in> set battery_properties \<union> {POWER_SUPPLY_PROP_CAPACITY_LEVEL}"
    by (simp add: battery_properties_def)
  have b: "POWER_SUPPLY_PROP_OTHER 7 \<notin> set battery_properties \<union> {POWER_SUPPLY_PROP_CAPACITY_LEVEL}"
    by (simp add: battery_properties_def)
  from battery_get_property_codes [of POWER_SUPPLY_PROP_PRESENT dead_bus "boot ()" "Intval 99"]
    battery_get_property_codes [of "POWER_SUPPLY_PROP_OTHER 7" dead_bus "boot ()" "Intval 99"]
    a b
  show ?thesis by blast
qed

text \<open>
  C10. For every status byte the status derivation answers discharging, charging or full:
  bit 0 set gives discharging, else bit 1 set gives charging, else full. The last branch
  of the source, unknown, is never taken, since a byte with bits 0 and 1 clear passes the
  test \<^verbatim>\<open>(status & 0x03) == 0x00\<close>. The register device shows every byte \<open>b\<close> reaches the
  decoder.
\<close>

theorem battery_status_never_unknown:
  "fst (battery_status adap w) =
     (let status = fst (read_byte_register adap BATTERY_REGISTER_STATUS w)
      in if bit status 0 then POWER_SUPPLY_STATUS_DISCHARGING
         else if bit status 1 then POWER_SUPPLY_STATUS_CHARGING
         else POWER_SUPPLY_STATUS_FULL)
   \<and> fst (battery_status adap w) \<noteq> POWER_SUPPLY_STATUS_UNKNOWN
   \<and> fst (battery_status (register_device (\<lambda>_. b)) w') =
       (if bit b 0 then POWER_SUPPLY_STATUS_DISCHARGING
        else if bit b 1 then POWER_SUPPLY_STATUS_CHARGING
        else POWER_SUPPLY_STATUS_FULL)"
  by (simp add: battery_status_decode Let_def status_enumerators_distinct
      read_byte_register_register_device)

text \<open>The decoder on the bytes 0x00, 0x03, 0x02 and 0xFC.\<close>

theorem battery_status_never_unknown_witness:
  "fst (battery_status (register_device (\<lambda>_. 0x00)) (boot 0)) = POWER_SUPPLY_STATUS_FULL
   \<and> fst (battery_status (register_device (\<lambda>_. 0x03)) (boot 0)) = POWER_SUPPLY_STATUS_DISCHARGING
   \<and> fst (battery_status (register_device (\<lambda>_. 0x02)) (boot 0)) = POWER_SUPPLY_STATUS_CHARGING
   \<and> fst (battery_status (register_device (\<lambda>_. 0xFC)) (boot 0)) = POWER_SUPPLY_STATUS_FULL"
  using battery_status_never_unknown [of "register_device (\<lambda>_. 0)" "boot 0" "0x00" "boot 0"]
    battery_status_never_unknown [of "register_device (\<lambda>_. 0)" "boot 0" "0x03" "boot 0"]
    battery_status_never_unknown [of "register_device (\<lambda>_. 0)" "boot 0" "0x02" "boot 0"]
    battery_status_never_unknown [of "register_device (\<lambda>_. 0)" "boot 0" "0xFC" "boot 0"]
  by (simp add: bit_simps bit_0)

end
